theory Spec2Isabelle
  imports Main "HOL-Library.Word"
begin

section \<open>The stack driver of \<^verbatim>\<open>source.c\<close>\<close>

text \<open>
  The driver keeps one global stack of \<^verbatim>\<open>int32_t\<close> values behind a character
  device. Its five file operations (\<^verbatim>\<open>open\<close>, \<^verbatim>\<open>release\<close>, \<^verbatim>\<open>read\<close>,
  \<^verbatim>\<open>write\<close>, \<^verbatim>\<open>unlocked_ioctl\<close>) each run under \<^verbatim>\<open>stack_mutex\<close>, so every one
  of them is a function from the global state to an outcome and a new global state.
\<close>

subsection \<open>Constants and global state\<close>

text \<open>\<^verbatim>\<open>#define MEM_SIZE 1024\<close> and \<^verbatim>\<open>#define STACK_MAX_SIZE 1024\<close>.\<close>

definition MEM_SIZE :: nat where
  "MEM_SIZE = 1024"

definition STACK_MAX_SIZE :: "64 word" where
  "STACK_MAX_SIZE = 1024"

text \<open>
  The three globals:
  \<^verbatim>\<open>static int32_t* stack_entries = NULL;\<close>,
  \<^verbatim>\<open>static uint8_t stack_size = 0;\<close>,
  \<^verbatim>\<open>static uint8_t top = 0;\<close>.
  The pointer is \<open>None\<close> when it is \<^verbatim>\<open>NULL\<close> and otherwise holds the cells of
  the block it points to, as many as were allocated. The field for \<^verbatim>\<open>top\<close> is
  called \<open>top_idx\<close>.
\<close>

record driver =
  stack_entries :: "32 word list option"
  stack_size :: "8 word"
  top_idx :: "8 word"

definition init_state :: driver where
  "init_state = \<lparr>stack_entries = None, stack_size = 0, top_idx = 0\<rparr>"

subsection \<open>Outcomes\<close>

text \<open>
  One constructor for each kind of early return of the source, named after what the
  branch logs; the value the C function returns is given beside it.
  \<^item> \<open>Empty\<close>: "Stack is empty. Cannot pop.", \<^verbatim>\<open>-EINVAL\<close>;
  \<^item> \<open>Exhausted\<close>: "Stack is full. Cannot push more data.", \<^verbatim>\<open>-ENOMEM\<close>;
  \<^item> \<open>InvalidSize\<close>: "Invalid stack size.", \<^verbatim>\<open>-EINVAL\<close>;
  \<^item> \<open>AllocationFailure\<close>: "Cannot allocate memory for stack." and
    "Failed to allocate memory for resizing stack.", \<^verbatim>\<open>-ENOMEM\<close>;
  \<^item> \<open>UnsupportedCommand\<close>: "Invalid ioctl command.", \<^verbatim>\<open>-EINVAL\<close>;
  \<^item> \<open>CopyFault\<close>: "Failed to copy data to/from user space.", \<^verbatim>\<open>-EFAULT\<close>;
  \<^item> \<open>NotInitialized\<close>: named in the error taxonomy of the specification; no
    branch of the source returns it.
\<close>

datatype error =
    Empty
  | Exhausted
  | InvalidSize
  | AllocationFailure
  | UnsupportedCommand
  | CopyFault
  | NotInitialized

text \<open>
  An operation either returns (an error or a value) and leaves a state, or it accesses
  memory outside an allocated block (through \<^verbatim>\<open>NULL\<close>, or past the end of a block),
  which C leaves undefined.
\<close>

datatype 'a outcome =
    Return "error + 'a" driver
  | Undefined_Behaviour

subsection \<open>The environment: allocator and user memory\<close>

text \<open>
  \<^verbatim>\<open>kmalloc(n * sizeof(int32_t), GFP_KERNEL)\<close> either fails (\<open>None\<close>) or returns a
  block of \<open>n\<close> uninitialised cells; \<open>g i\<close> is what cell \<open>i\<close> happens to hold.
\<close>

type_synonym allocator = "(nat \<Rightarrow> 32 word) option"

definition kmalloc :: "allocator \<Rightarrow> nat \<Rightarrow> 32 word list option" where
  "kmalloc a n = (case a of None \<Rightarrow> None | Some g \<Rightarrow> Some (map g [0..<n]))"

text \<open>
  \<^verbatim>\<open>memcpy(dst, src, n * sizeof(int32_t))\<close>: the first \<open>n\<close> cells of \<open>src\<close> replace
  the first \<open>n\<close> cells of \<open>dst\<close>; \<open>None\<close> when either block has fewer than \<open>n\<close>
  cells.
\<close>

definition memcpy :: "32 word list \<Rightarrow> 32 word list \<Rightarrow> nat \<Rightarrow> 32 word list option" where
  "memcpy dst src n =
     (if n \<le> length dst \<and> n \<le> length src then Some (take n src @ drop n dst) else None)"

text \<open>
  What \<^verbatim>\<open>copy_from_user\<close> finds at the user pointer of a \<^verbatim>\<open>write\<close>: four readable
  bytes (\<open>UserWord v\<close>), or a fault (\<open>UserFault r\<close>), after which the destination cell
  holds \<open>r\<close> (the bytes copied before the fault, the rest zero-filled).
\<close>

datatype user_src = UserWord "32 word" | UserFault "32 word"

subsection \<open>The file operations\<close>

text \<open>\<^verbatim>\<open>new_open\<close>, lines 41-59.\<close>

definition new_open :: "allocator \<Rightarrow> driver \<Rightarrow> unit outcome" where
  "new_open a s =
     (case stack_entries s of
        None \<Rightarrow>
          (case kmalloc a MEM_SIZE of
             None \<Rightarrow> Return (Inl AllocationFailure) s
           | Some blk \<Rightarrow>
               Return (Inr ())
                 (s\<lparr>stack_entries := Some blk, stack_size := of_nat MEM_SIZE, top_idx := 0\<rparr>))
      | Some _ \<Rightarrow> Return (Inr ()) s)"

text \<open>\<^verbatim>\<open>new_release\<close>, lines 61-75.\<close>

definition new_release :: "driver \<Rightarrow> unit outcome" where
  "new_release s =
     (case stack_entries s of
        Some _ \<Rightarrow> Return (Inr ()) (s\<lparr>stack_entries := None, stack_size := 0, top_idx := 0\<rparr>)
      | None \<Rightarrow> Return (Inr ()) s)"

text \<open>
  \<^verbatim>\<open>new_read\<close>, lines 77-103. \<open>dst_ok\<close> says whether \<^verbatim>\<open>copy_to_user\<close> can write
  the user buffer. The result is the word delivered there (the C function returns
  \<^verbatim>\<open>sizeof(int32_t)\<close>). The arguments \<^verbatim>\<open>len\<close> and \<^verbatim>\<open>off\<close> are not used by the
  source.
\<close>

definition new_read :: "bool \<Rightarrow> driver \<Rightarrow> 32 word outcome" where
  "new_read dst_ok s =
     (if top_idx s = 0 then Return (Inl Empty) s
      else
        (case stack_entries s of
           None \<Rightarrow> Undefined_Behaviour
         | Some buf \<Rightarrow>
             if unat (top_idx s - 1) < length buf then
               (if dst_ok then
                  Return (Inr (buf ! unat (top_idx s - 1))) (s\<lparr>top_idx := top_idx s - 1\<rparr>)
                else Return (Inl CopyFault) s)
             else Undefined_Behaviour))"

text \<open>\<^verbatim>\<open>new_write\<close>, lines 105-131. On success the C function returns
  \<^verbatim>\<open>sizeof(int32_t)\<close>.\<close>

definition new_write :: "user_src \<Rightarrow> driver \<Rightarrow> unit outcome" where
  "new_write src s =
     (if top_idx s \<ge> stack_size s then Return (Inl Exhausted) s
      else
        (case stack_entries s of
           None \<Rightarrow> Undefined_Behaviour
         | Some buf \<Rightarrow>
             if unat (top_idx s) < length buf then
               (case src of
                  UserWord v \<Rightarrow>
                    Return (Inr ())
                      (s\<lparr>stack_entries := Some (buf[unat (top_idx s) := v]),
                         top_idx := top_idx s + 1\<rparr>)
                | UserFault r \<Rightarrow>
                    Return (Inl CopyFault)
                      (s\<lparr>stack_entries := Some (buf[unat (top_idx s) := r])\<rparr>))
             else Undefined_Behaviour))"

text \<open>
  \<^verbatim>\<open>new_ioctl\<close>, lines 133-175: \<^verbatim>\<open>cmd\<close> is an \<^verbatim>\<open>unsigned int\<close>, \<^verbatim>\<open>arg\<close> an
  \<^verbatim>\<open>unsigned long\<close>. The assignment \<^verbatim>\<open>stack_size = arg\<close> converts to
  \<^verbatim>\<open>uint8_t\<close>. No statement of the function assigns \<^verbatim>\<open>top\<close>.
\<close>

definition new_ioctl :: "32 word \<Rightarrow> 64 word \<Rightarrow> allocator \<Rightarrow> driver \<Rightarrow> unit outcome" where
  "new_ioctl cmd arg a s =
     (if cmd = 1 then
        (if 0 < arg \<and> arg \<le> STACK_MAX_SIZE then
           (case kmalloc a (unat arg) of
              None \<Rightarrow> Return (Inl AllocationFailure) s
            | Some new_stack \<Rightarrow>
                (case stack_entries s of
                   None \<Rightarrow>
                     Return (Inr ())
                       (s\<lparr>stack_entries := Some new_stack, stack_size := ucast arg\<rparr>)
                 | Some old \<Rightarrow>
                     (case memcpy new_stack old (unat (top_idx s)) of
                        None \<Rightarrow> Undefined_Behaviour
                      | Some copied \<Rightarrow>
                          Return (Inr ())
                            (s\<lparr>stack_entries := Some copied, stack_size := ucast arg\<rparr>))))
         else Return (Inl InvalidSize) s)
      else Return (Inl UnsupportedCommand) s)"

subsection \<open>Sequences of calls\<close>

datatype call =
    Open allocator
  | Release
  | Read bool
  | Write user_src
  | Ioctl "32 word" "64 word" allocator

definition after :: "'a outcome \<Rightarrow> driver option" where
  "after r = (case r of Return _ s \<Rightarrow> Some s | Undefined_Behaviour \<Rightarrow> None)"

fun exec :: "call \<Rightarrow> driver \<Rightarrow> driver option" where
  "exec (Open a) s = after (new_open a s)"
| "exec Release s = after (new_release s)"
| "exec (Read ok) s = after (new_read ok s)"
| "exec (Write src) s = after (new_write src s)"
| "exec (Ioctl cmd arg a) s = after (new_ioctl cmd arg a s)"

fun run :: "call list \<Rightarrow> driver \<Rightarrow> driver option" where
  "run [] s = Some s"
| "run (c # cs) s = (case exec c s of None \<Rightarrow> None | Some s' \<Rightarrow> run cs s')"

text \<open>The states the driver can be in between two calls, from module load on.\<close>

inductive reachable :: "driver \<Rightarrow> bool" where
  init: "reachable init_state"
| step: "reachable s \<Longrightarrow> exec c s = Some s' \<Longrightarrow> reachable s'"

text \<open>
  In every reachable state a \<^verbatim>\<open>NULL\<close> pointer goes with \<^verbatim>\<open>stack_size = 0\<close> and
  \<^verbatim>\<open>top = 0\<close>.
\<close>

definition null_is_zeroed :: "driver \<Rightarrow> bool" where
  "null_is_zeroed s = (stack_entries s = None \<longrightarrow> stack_size s = 0 \<and> top_idx s = 0)"

subsection \<open>Pushing and popping in sequence\<close>

text \<open>
  \<open>push_all vs\<close> writes the values of \<open>vs\<close> one after the other, each from a
  readable user buffer, and is \<open>None\<close> as soon as one \<^verbatim>\<open>write\<close> does not return
  success. \<open>pop_n n\<close> reads \<open>n\<close> times into a writable user buffer and collects the
  values in the order they come out; it is \<open>None\<close> as soon as one \<^verbatim>\<open>read\<close> does not
  return a value.
\<close>

fun push_all :: "32 word list \<Rightarrow> driver \<Rightarrow> driver option" where
  "push_all [] s = Some s"
| "push_all (v # vs) s =
     (case new_write (UserWord v) s of
        Return (Inr _) s' \<Rightarrow> push_all vs s'
      | _ \<Rightarrow> None)"

definition pop1 :: "driver \<Rightarrow> (32 word \<times> driver) option" where
  "pop1 s = (case new_read True s of Return (Inr v) s' \<Rightarrow> Some (v, s') | _ \<Rightarrow> None)"

fun pop_n :: "nat \<Rightarrow> driver \<Rightarrow> (32 word list \<times> driver) option" where
  "pop_n 0 s = Some ([], s)"
| "pop_n (Suc n) s =
     (case pop1 s of
        None \<Rightarrow> None
      | Some (v, s') \<Rightarrow>
          (case pop_n n s' of None \<Rightarrow> None | Some (vs, s'') \<Rightarrow> Some (v # vs, s'')))"

text \<open>A state used in the examples below: capacity 5, holding 1 to 5.\<close>

definition five_pushed :: driver where
  "five_pushed = \<lparr>stack_entries = Some [1, 2, 3, 4, 5], stack_size = 5, top_idx = 5\<rparr>"

section \<open>Properties\<close>

lemma null_is_zeroed_exec:
  assumes "null_is_zeroed s" and "exec c s = Some s'"
  shows "null_is_zeroed s'"
proof (cases c)
  case (Open a)
  with assms show ?thesis
    by (auto simp: null_is_zeroed_def after_def new_open_def split: option.splits)
next
  case Release
  with assms show ?thesis
    by (auto simp: null_is_zeroed_def after_def new_release_def split: option.splits)
next
  case (Read ok)
  with assms show ?thesis
    by (auto simp: null_is_zeroed_def after_def new_read_def split: option.splits if_splits)
next
  case (Write src)
  with assms show ?thesis
    by (auto simp: null_is_zeroed_def after_def new_write_def
        split: option.splits if_splits user_src.splits)
next
  case (Ioctl cmd arg a)
  with assms show ?thesis
    by (auto simp: null_is_zeroed_def after_def new_ioctl_def split: option.splits if_splits)
qed

lemma reachable_null_is_zeroed: "reachable s \<Longrightarrow> null_is_zeroed s"
proof (induction rule: reachable.induct)
  case init
  show ?case by (simp add: null_is_zeroed_def init_state_def)
next
  case (step s c s')
  then show ?case by (blast intro: null_is_zeroed_exec)
qed

text \<open>
  C7. For every state and every argument that is 0 or greater than
  \<^verbatim>\<open>STACK_MAX_SIZE\<close>, the resize command fails with \<open>InvalidSize\<close> and leaves the
  state (capacity, top and buffer contents) as it was.
\<close>

theorem C7_invalid_size_rejected:
  "arg = 0 \<or> arg > STACK_MAX_SIZE \<Longrightarrow> new_ioctl 1 arg a s = Return (Inl InvalidSize) s"
  by (auto simp: new_ioctl_def)

theorem C7_invalid_size_rejected_witness:
  "((2000 :: 64 word) = 0 \<or> 2000 > STACK_MAX_SIZE) \<and>
   new_ioctl 1 2000 (Some (\<lambda>_. 0)) init_state = Return (Inl InvalidSize) init_state"
proof -
  have h: "(2000 :: 64 word) = 0 \<or> 2000 > STACK_MAX_SIZE"
    by (simp add: STACK_MAX_SIZE_def)
  from h C7_invalid_size_rejected [OF h] show ?thesis by blast
qed

subsection \<open>Reaching states by runs\<close>

lemma reachable_run: "reachable s \<Longrightarrow> run cs s = Some s' \<Longrightarrow> reachable s'"
proof (induction cs arbitrary: s)
  case Nil
  then show ?case by simp
next
  case (Cons c cs)
  then show ?case by (auto split: option.splits intro: reachable.step)
qed

lemma reachable_NULL_init:
  assumes "reachable s" and "stack_entries s = None"
  shows "s = init_state"
  using reachable_null_is_zeroed [OF assms(1)] assms(2)
  by (simp add: null_is_zeroed_def init_state_def)

lemma of_nat_MEM_SIZE: "(of_nat MEM_SIZE :: 8 word) = 0"
  by (simp add: MEM_SIZE_def)

lemma upt_0_5: "[0..<5] = [0, 1, 2, 3, 4]"
  by code_simp

lemma open_init:
  "new_open (Some g) init_state =
     Return (Inr ()) \<lparr>stack_entries = Some (map g [0..<MEM_SIZE]), stack_size = 0, top_idx = 0\<rparr>"
  by (simp add: new_open_def kmalloc_def init_state_def of_nat_MEM_SIZE)

text \<open>
  Opening the device, resizing to 5 and writing 1 to 5 leads to \<open>five_pushed\<close>,
  whatever the allocator hands out.
\<close>

lemma run_five_pushed:
  "run [Open (Some g), Ioctl 1 5 (Some g), Write (UserWord 1), Write (UserWord 2),
        Write (UserWord 3), Write (UserWord 4), Write (UserWord 5)] init_state
   = Some five_pushed"
  by (simp add: open_init after_def new_ioctl_def new_write_def memcpy_def kmalloc_def
      STACK_MAX_SIZE_def word_le_nat_alt upt_0_5 five_pushed_def)

lemma reachable_five_pushed: "reachable five_pushed"
  using reachable_run [OF reachable.init run_five_pushed] .

subsection \<open>Word arithmetic on the 8-bit fields\<close>

lemma unat_inc: "x < y \<Longrightarrow> unat (x + 1) = Suc (unat x)" for x y :: "8 word"
  by unat_arith

lemma unat_ucast_u8: "unat (ucast n :: 8 word) = unat n mod 256" for n :: "64 word"
  by (simp add: unsigned_ucast_eq take_bit_eq_mod)

subsection \<open>Resizing\<close>

text \<open>The resize command never changes \<^verbatim>\<open>top\<close>.\<close>

lemma ioctl_keeps_top: "new_ioctl cmd arg a s = Return r s' \<Longrightarrow> top_idx s' = top_idx s"
  by (auto simp: new_ioctl_def split: if_splits option.splits)

text \<open>
  Every accepted resize below the number of live elements makes \<^verbatim>\<open>memcpy\<close> write
  \<^verbatim>\<open>top\<close> cells into a block of fewer cells.
\<close>

lemma shrink_below_top_overruns:
  assumes "stack_entries s = Some old" and "0 < n" and "n \<le> STACK_MAX_SIZE"
    and "unat n < unat (top_idx s)"
  shows "new_ioctl 1 n (Some g) s = Undefined_Behaviour"
  using assms by (simp add: new_ioctl_def kmalloc_def memcpy_def)

text \<open>
  A resize to at least the number of live elements keeps them, in place, and stores
  the new size modulo 256.
\<close>

lemma resize_preserves_live:
  fixes s :: driver and g :: "nat \<Rightarrow> 32 word" and n :: "64 word"
  defines "new \<equiv> take (unat (top_idx s)) (the (stack_entries s)) @
                  drop (unat (top_idx s)) (map g [0..<unat n])"
  assumes "stack_entries s = Some old" and "unat (top_idx s) \<le> length old"
    and "0 < n" and "n \<le> STACK_MAX_SIZE" and "unat (top_idx s) \<le> unat n"
  shows "new_ioctl 1 n (Some g) s =
           Return (Inr ()) (s\<lparr>stack_entries := Some new, stack_size := ucast n\<rparr>)"
    and "length new = unat n"
    and "take (unat (top_idx s)) new = take (unat (top_idx s)) old"
  using assms by (simp_all add: new_ioctl_def kmalloc_def memcpy_def)

subsection \<open>The bound on \<^verbatim>\<open>top\<close> and the calls other than resize\<close>

lemma top_le_size_init: "top_idx init_state \<le> stack_size init_state"
  by (simp add: init_state_def)

lemma top_le_size_open:
  "top_idx s \<le> stack_size s \<Longrightarrow> new_open a s = Return r s' \<Longrightarrow> top_idx s' \<le> stack_size s'"
  by (auto simp: new_open_def split: option.splits)

lemma top_le_size_release:
  "top_idx s \<le> stack_size s \<Longrightarrow> new_release s = Return r s' \<Longrightarrow> top_idx s' \<le> stack_size s'"
  by (auto simp: new_release_def split: option.splits)

lemma top_le_size_read:
  assumes "top_idx s \<le> stack_size s" and "new_read ok s = Return r s'"
  shows "top_idx s' \<le> stack_size s'"
proof -
  have "top_idx s - 1 \<le> stack_size s" if "top_idx s \<noteq> 0"
    using that assms(1) by unat_arith
  with assms show ?thesis
    by (auto simp: new_read_def split: if_splits option.splits)
qed

lemma top_le_size_write:
  assumes "top_idx s \<le> stack_size s" and "new_write src s = Return r s'"
  shows "top_idx s' \<le> stack_size s'"
proof -
  have "top_idx s + 1 \<le> stack_size s" if "top_idx s < stack_size s"
    using that by (rule inc_le)
  with assms show ?thesis
    by (auto simp: new_write_def not_le split: if_splits option.splits user_src.splits)
qed

subsection \<open>Last in, first out\<close>

lemma new_write_ReturnD:
  assumes "new_write (UserWord v) s = Return (Inr u) s'"
  obtains buf where "stack_entries s = Some buf" and "unat (top_idx s) < length buf"
    and "top_idx s < stack_size s"
    and "s' = s\<lparr>stack_entries := Some (buf[unat (top_idx s) := v]), top_idx := top_idx s + 1\<rparr>"
  using assms
  by (auto simp: new_write_def not_le split: if_splits option.splits)

lemma push_all_ConsD:
  assumes "push_all (v # vs) s = Some s'"
  obtains u s1 where "new_write (UserWord v) s = Return (Inr u) s1" and "push_all vs s1 = Some s'"
  using assms by (auto split: outcome.splits sum.splits)

text \<open>Pushing leaves the cells below the old \<^verbatim>\<open>top\<close> alone.\<close>

lemma push_all_frame:
  "push_all vs s = Some s' \<Longrightarrow> stack_entries s = Some b \<Longrightarrow>
   \<exists>b'. stack_entries s' = Some b' \<and> length b' = length b \<and>
        (\<forall>i < unat (top_idx s). b' ! i = b ! i)"
proof (induction vs arbitrary: s b)
  case Nil
  then show ?case by simp
next
  case (Cons v vs)
  from Cons.prems(1) obtain u s1 where w: "new_write (UserWord v) s = Return (Inr u) s1"
    and rest: "push_all vs s1 = Some s'"
    by (rule push_all_ConsD)
  from w Cons.prems(2)
  have s1: "s1 = s\<lparr>stack_entries := Some (b[unat (top_idx s) := v]), top_idx := top_idx s + 1\<rparr>"
    and lt: "top_idx s < stack_size s"
    by (auto elim!: new_write_ReturnD)
  from s1 have e1: "stack_entries s1 = Some (b[unat (top_idx s) := v])" by simp
  from Cons.IH [OF rest e1] obtain b' where b': "stack_entries s' = Some b'"
    "length b' = length b" "\<forall>i < unat (top_idx s1). b' ! i = (b[unat (top_idx s) := v]) ! i"
    by auto
  from s1 lt have t1: "unat (top_idx s1) = Suc (unat (top_idx s))"
    by (simp add: unat_inc)
  with b' show ?case by auto
qed

text \<open>Popping once more after \<open>n\<close> pops.\<close>

lemma pop_n_Suc:
  "pop_n (Suc n) s =
     (case pop_n n s of
        None \<Rightarrow> None
      | Some (vs, t) \<Rightarrow>
          (case pop1 t of None \<Rightarrow> None | Some (v, t') \<Rightarrow> Some (vs @ [v], t')))"
proof (induction n arbitrary: s)
  case 0
  show ?case by (simp split: option.splits)
next
  case (Suc n)
  have "pop_n (Suc (Suc n)) s =
      (case pop1 s of
        None \<Rightarrow> None
      | Some (v, s') \<Rightarrow>
          (case pop_n (Suc n) s' of None \<Rightarrow> None | Some (vs, s'') \<Rightarrow> Some (v # vs, s'')))"
    by (rule pop_n.simps(2))
  also have "\<dots> =
      (case pop1 s of
        None \<Rightarrow> None
      | Some (v, s') \<Rightarrow>
          (case (case pop_n n s' of
                  None \<Rightarrow> None
                | Some (vs, t) \<Rightarrow>
                    (case pop1 t of None \<Rightarrow> None | Some (v, t') \<Rightarrow> Some (vs @ [v], t'))) of
             None \<Rightarrow> None
           | Some (vs, s'') \<Rightarrow> Some (v # vs, s'')))"
    by (simp only: Suc.IH)
  also have "\<dots> =
      (case pop_n (Suc n) s of
        None \<Rightarrow> None
      | Some (vs, t) \<Rightarrow>
          (case pop1 t of None \<Rightarrow> None | Some (v, t') \<Rightarrow> Some (vs @ [v], t')))"
    by (simp split: option.splits prod.splits)
  finally show ?case .
qed

lemma pops_after_pushes:
  "push_all vs s = Some s' \<Longrightarrow>
   \<exists>s''. pop_n (length vs) s' = Some (rev vs, s'') \<and> top_idx s'' = top_idx s \<and>
         stack_entries s'' = stack_entries s'"
proof (induction vs arbitrary: s)
  case Nil
  then show ?case by simp
next
  case (Cons v vs)
  from Cons.prems obtain u s1 where w: "new_write (UserWord v) s = Return (Inr u) s1"
    and rest: "push_all vs s1 = Some s'"
    by (rule push_all_ConsD)
  from w obtain b where b: "stack_entries s = Some b" "unat (top_idx s) < length b"
    "top_idx s < stack_size s"
    and s1: "s1 = s\<lparr>stack_entries := Some (b[unat (top_idx s) := v]), top_idx := top_idx s + 1\<rparr>"
    by (rule new_write_ReturnD)
  from s1 have e1: "stack_entries s1 = Some (b[unat (top_idx s) := v])" by simp
  from s1 b(3) have t1: "unat (top_idx s1) = Suc (unat (top_idx s))"
    by (simp add: unat_inc)
  from push_all_frame [OF rest e1] t1 b(2) obtain b' where b': "stack_entries s' = Some b'"
    "length b' = length b" "b' ! unat (top_idx s) = v"
    by auto
  from Cons.IH [OF rest] obtain t where pops: "pop_n (length vs) s' = Some (rev vs, t)"
    and tt: "top_idx t = top_idx s1" and et: "stack_entries t = stack_entries s'"
    by blast
  from tt s1 have tt': "top_idx t = top_idx s + 1" by simp
  from tt t1 have "unat (top_idx t) \<noteq> 0" by simp
  then have nz: "top_idx t \<noteq> 0" by auto
  have rd: "pop1 t = Some (v, t\<lparr>top_idx := top_idx s\<rparr>)"
    using nz et b' b(2) tt' by (simp add: pop1_def new_read_def)
  show ?case
    by (simp only: length_Cons pop_n_Suc pops) (simp add: rd et)
qed

text \<open>
  On a stack whose buffer is as long as its stored capacity says, pushes succeed as
  long as there is room.
\<close>

lemma push_all_succeeds:
  "stack_entries s = Some b \<Longrightarrow> unat (stack_size s) \<le> length b \<Longrightarrow>
   unat (top_idx s) + length vs \<le> unat (stack_size s) \<Longrightarrow> \<exists>s'. push_all vs s = Some s'"
proof (induction vs arbitrary: s b)
  case Nil
  show ?case by simp
next
  case (Cons v vs)
  from Cons.prems(3) have lt: "top_idx s < stack_size s"
    by (simp add: word_less_nat_alt)
  let ?s1 = "s\<lparr>stack_entries := Some (b[unat (top_idx s) := v]), top_idx := top_idx s + 1\<rparr>"
  from lt Cons.prems have w: "new_write (UserWord v) s = Return (Inr ()) ?s1"
    by (simp add: new_write_def not_le word_less_nat_alt)
  from lt have t1: "unat (top_idx ?s1) = Suc (unat (top_idx s))"
    by (simp add: unat_inc)
  have "\<exists>s'. push_all vs ?s1 = Some s'"
    using Cons.prems t1 by (intro Cons.IH [of ?s1 "b[unat (top_idx s) := v]"]) simp_all
  with w show ?case by simp
qed

section \<open>The claims\<close>

text \<open>
  C1. Resizing an existing stack to a capacity below \<^verbatim>\<open>top\<close> is claimed to keep the
  elements at indices below the new capacity, set \<^verbatim>\<open>top\<close> to the new capacity and
  succeed. In the source \<^verbatim>\<open>memcpy\<close> copies \<^verbatim>\<open>top\<close> cells into the smaller block
  and nothing assigns \<^verbatim>\<open>top\<close>: after open, resize to 5 and five writes, the resize
  to 3 writes five cells into a block of three.
\<close>

theorem C1_shrink_overruns_new_block:
  "run [Open (Some g), Ioctl 1 5 (Some g), Write (UserWord 1), Write (UserWord 2),
        Write (UserWord 3), Write (UserWord 4), Write (UserWord 5)] init_state
     = Some five_pushed \<and>
   new_ioctl 1 3 (Some g) five_pushed = Undefined_Behaviour"
proof (rule conjI)
  show "new_ioctl 1 3 (Some g) five_pushed = Undefined_Behaviour"
    by (simp add: five_pushed_def new_ioctl_def memcpy_def kmalloc_def STACK_MAX_SIZE_def)
qed (rule run_five_pushed)

text \<open>
  C2. The first open is claimed to give a stack of capacity 1024 on which 1024 writes
  succeed. In the source the block has 1024 cells, but \<^verbatim>\<open>stack_size = MEM_SIZE\<close>
  stores 1024 in a \<^verbatim>\<open>uint8_t\<close>, which is 0: the first write after the open is
  rejected as "stack is full".
\<close>

theorem C2_open_stores_capacity_0:
  "new_open (Some g) init_state =
     Return (Inr ()) \<lparr>stack_entries = Some (map g [0..<1024]), stack_size = 0, top_idx = 0\<rparr> \<and>
   new_write (UserWord v)
     \<lparr>stack_entries = Some (map g [0..<1024]), stack_size = 0, top_idx = 0\<rparr> =
     Return (Inl Exhausted)
       \<lparr>stack_entries = Some (map g [0..<1024]), stack_size = 0, top_idx = 0\<rparr>"
proof (rule conjI)
  show "new_open (Some g) init_state =
     Return (Inr ()) \<lparr>stack_entries = Some (map g [0..<1024]), stack_size = 0, top_idx = 0\<rparr>"
    unfolding open_init MEM_SIZE_def ..
  show "new_write (UserWord v)
     \<lparr>stack_entries = Some (map g [0..<1024]), stack_size = 0, top_idx = 0\<rparr> =
     Return (Inl Exhausted)
       \<lparr>stack_entries = Some (map g [0..<1024]), stack_size = 0, top_idx = 0\<rparr>"
    by (simp add: new_write_def)
qed

text \<open>
  C3. The bound \<^verbatim>\<open>top <= stack_size\<close> is claimed to hold between any two calls. It
  holds at module load and is kept by open, release, read and write (lemmas
  \<open>top_le_size_init\<close> to \<open>top_le_size_write\<close>), but not by resize: with five live
  elements, the accepted resize to 256 returns 0 and stores capacity 256 mod 256 = 0,
  leaving \<^verbatim>\<open>top\<close> = 5 above it.
\<close>

theorem C3_resize_breaks_top_le_size:
  "run [Open (Some g), Ioctl 1 5 (Some g), Write (UserWord 1), Write (UserWord 2),
        Write (UserWord 3), Write (UserWord 4), Write (UserWord 5)] init_state
     = Some five_pushed \<and>
   top_idx five_pushed \<le> stack_size five_pushed \<and>
   new_ioctl 1 256 (Some g) five_pushed =
     Return (Inr ())
       \<lparr>stack_entries = Some ([1, 2, 3, 4, 5] @ drop 5 (map g [0..<256])),
          stack_size = 0, top_idx = 5\<rparr> \<and>
   \<not> (5 :: 8 word) \<le> 0"
proof (intro conjI)
  show "top_idx five_pushed \<le> stack_size five_pushed"
    by (simp add: five_pushed_def)
  show "new_ioctl 1 256 (Some g) five_pushed =
     Return (Inr ())
       \<lparr>stack_entries = Some ([1, 2, 3, 4, 5] @ drop 5 (map g [0..<256])),
          stack_size = 0, top_idx = 5\<rparr>"
    by (simp add: five_pushed_def new_ioctl_def memcpy_def kmalloc_def STACK_MAX_SIZE_def)
  show "\<not> (5 :: 8 word) \<le> 0" by simp
qed (rule run_five_pushed)

text \<open>
  C4, as amended. In every state the driver can reach in which the stack does not
  exist (\<^verbatim>\<open>stack_entries\<close> is \<^verbatim>\<open>NULL\<close>), a write fails as on a full stack
  (\<open>Exhausted\<close>, \<^verbatim>\<open>-ENOMEM\<close>) and a read fails as on an empty stack (\<open>Empty\<close>,
  \<^verbatim>\<open>-EINVAL\<close>), and neither changes the state.
\<close>

theorem C4_no_stack_push_full_pop_empty:
  assumes "reachable s" and "stack_entries s = None"
  shows "new_write src s = Return (Inl Exhausted) s \<and> new_read ok s = Return (Inl Empty) s"
proof -
  from assms have "s = init_state" by (rule reachable_NULL_init)
  then show ?thesis by (simp add: new_write_def new_read_def init_state_def)
qed

theorem C4_no_stack_push_full_pop_empty_witness:
  "reachable init_state \<and> stack_entries init_state = None \<and>
   new_write (UserWord 7) init_state = Return (Inl Exhausted) init_state \<and>
   new_read True init_state = Return (Inl Empty) init_state"
proof -
  have e: "stack_entries init_state = None" by (simp add: init_state_def)
  from C4_no_stack_push_full_pop_empty [OF reachable.init e, of "UserWord 7" True]
    reachable.init e
  show ?thesis by simp
qed

text \<open>
  C4 as first stated, that both calls report \<open>NotInitialized\<close>, fails at module load:
  neither call reports it.
\<close>

theorem C4_not_initialized_counterexample:
  "stack_entries init_state = None \<and>
   new_write (UserWord 7) init_state \<noteq> Return (Inl NotInitialized) init_state \<and>
   new_read True init_state \<noteq> Return (Inl NotInitialized) init_state"
  by (simp add: new_write_def new_read_def init_state_def)

text \<open>
  C5. A resize to a capacity of at least \<^verbatim>\<open>top\<close> is claimed to keep the live elements
  and to make the capacity equal to the argument. The elements are kept (lemma
  \<open>resize_preserves_live\<close>), but the capacity is stored in a \<^verbatim>\<open>uint8_t\<close>: the
  accepted resize to 300 leaves capacity 44.
\<close>

theorem C5_resize_300_stores_44:
  "run [Open (Some g), Ioctl 1 5 (Some g), Write (UserWord 1), Write (UserWord 2),
        Write (UserWord 3), Write (UserWord 4), Write (UserWord 5)] init_state
     = Some five_pushed \<and>
   new_ioctl 1 300 (Some g) five_pushed =
     Return (Inr ())
       \<lparr>stack_entries = Some ([1, 2, 3, 4, 5] @ drop 5 (map g [0..<300])),
          stack_size = 44, top_idx = 5\<rparr>"
proof (rule conjI)
  show "new_ioctl 1 300 (Some g) five_pushed =
     Return (Inr ())
       \<lparr>stack_entries = Some ([1, 2, 3, 4, 5] @ drop 5 (map g [0..<300])),
          stack_size = 44, top_idx = 5\<rparr>"
    by (simp add: five_pushed_def new_ioctl_def memcpy_def kmalloc_def STACK_MAX_SIZE_def)
qed (rule run_five_pushed)

text \<open>
  C6. Last in, first out: whenever the values \<open>v1, ..., vn\<close> have been pushed one after
  the other, every push succeeding, \<open>n\<close> pops all succeed and yield
  \<open>vn, ..., v1\<close>, and \<^verbatim>\<open>top\<close> is back where it was.
\<close>

theorem C6_lifo:
  "push_all vs s = Some s' \<Longrightarrow>
   \<exists>s''. pop_n (length vs) s' = Some (rev vs, s'') \<and> top_idx s'' = top_idx s"
  by (drule pops_after_pushes) blast

theorem C6_lifo_witness:
  "push_all [10, 20] \<lparr>stack_entries = Some [0, 0, 0], stack_size = 3, top_idx = 0\<rparr> =
     Some \<lparr>stack_entries = Some [10, 20, 0], stack_size = 3, top_idx = 2\<rparr> \<and>
   (\<exists>s''. pop_n (length [10, 20 :: 32 word])
            \<lparr>stack_entries = Some [10, 20, 0], stack_size = 3, top_idx = 2\<rparr> =
            Some (rev [10, 20], s'') \<and>
          top_idx s'' = top_idx \<lparr>stack_entries = Some [0, 0, 0], stack_size = 3, top_idx = 0\<rparr>)"
proof -
  have h: "push_all [10, 20] \<lparr>stack_entries = Some [0, 0, 0], stack_size = 3, top_idx = 0\<rparr> =
     Some \<lparr>stack_entries = Some [10, 20, 0], stack_size = 3, top_idx = 2\<rparr>"
    by (simp add: new_write_def word_le_nat_alt)
  from h C6_lifo [OF h] show ?thesis by blast
qed

text \<open>
  C8. In every state the driver can reach, release returns 0 and leaves the stack
  non-existent, with capacity 0 and \<^verbatim>\<open>top\<close> 0; it takes no account of other open
  sessions.
\<close>

theorem C8_release_clears:
  "reachable s \<Longrightarrow>
   new_release s = Return (Inr ()) \<lparr>stack_entries = None, stack_size = 0, top_idx = 0\<rparr>"
  by (drule reachable_null_is_zeroed)
    (auto simp: new_release_def null_is_zeroed_def split: option.splits)

theorem C8_release_clears_witness:
  "reachable five_pushed \<and>
   new_release five_pushed =
     Return (Inr ()) \<lparr>stack_entries = None, stack_size = 0, top_idx = 0\<rparr>"
  using reachable_five_pushed C8_release_clears [OF reachable_five_pushed] by blast

text \<open>
  C9. The capacity is kept in 8 bits: after a successful resize to \<open>n\<close>, with
  \<open>0 < n \<le> STACK_MAX_SIZE\<close>, the stored capacity is \<open>n mod 256\<close>; for 256, 512 and
  1024 it is 0, and every write afterwards fails as on a full stack.
\<close>

theorem C9_capacity_mod_256:
  assumes "0 < n" and "n \<le> STACK_MAX_SIZE" and "new_ioctl 1 n a s = Return (Inr ()) s'"
  shows "unat (stack_size s') = unat n mod 256 \<and>
         (n \<in> {256, 512, 1024} \<longrightarrow>
            stack_size s' = 0 \<and> (\<forall>src. new_write src s' = Return (Inl Exhausted) s'))"
proof -
  from assms have sz: "stack_size s' = ucast n"
    by (auto simp: new_ioctl_def split: option.splits if_splits)
  then have "unat (stack_size s') = unat n mod 256"
    by (simp add: unat_ucast_u8)
  moreover have "stack_size s' = 0 \<and> (\<forall>src. new_write src s' = Return (Inl Exhausted) s')"
    if "n \<in> {256, 512, 1024}"
  proof -
    from that sz have "stack_size s' = 0" by auto
    then show ?thesis by (simp add: new_write_def)
  qed
  ultimately show ?thesis by blast
qed

theorem C9_capacity_mod_256_witness:
  "(0 :: 64 word) < 512 \<and> 512 \<le> STACK_MAX_SIZE \<and>
   new_ioctl 1 512 (Some (\<lambda>_. 0)) five_pushed =
     Return (Inr ())
       \<lparr>stack_entries = Some ([1, 2, 3, 4, 5] @ drop 5 (map (\<lambda>_. 0) [0..<512])),
          stack_size = 0, top_idx = 5\<rparr> \<and>
   unat (stack_size
       \<lparr>stack_entries = Some ([1, 2, 3, 4, 5] @ drop 5 (map (\<lambda>_. 0) [0..<512])),
          stack_size = 0, top_idx = 5\<rparr>) = unat (512 :: 64 word) mod 256 \<and>
   new_write (UserWord 9)
       \<lparr>stack_entries = Some ([1, 2, 3, 4, 5] @ drop 5 (map (\<lambda>_. 0) [0..<512])),
          stack_size = 0, top_idx = 5\<rparr> =
     Return (Inl Exhausted)
       \<lparr>stack_entries = Some ([1, 2, 3, 4, 5] @ drop 5 (map (\<lambda>_. 0) [0..<512])),
          stack_size = 0, top_idx = 5\<rparr>"
proof -
  have h1: "(0 :: 64 word) < 512" by simp
  have h2: "(512 :: 64 word) \<le> STACK_MAX_SIZE" by (simp add: STACK_MAX_SIZE_def)
  have h3: "new_ioctl 1 512 (Some (\<lambda>_. 0)) five_pushed =
     Return (Inr ())
       \<lparr>stack_entries = Some ([1, 2, 3, 4, 5] @ drop 5 (map (\<lambda>_. 0) [0..<512])),
          stack_size = 0, top_idx = 5\<rparr>"
    by (simp add: five_pushed_def new_ioctl_def memcpy_def kmalloc_def STACK_MAX_SIZE_def)
  from C9_capacity_mod_256 [OF h1 h2 h3] h1 h2 h3 show ?thesis by simp
qed

text \<open>
  C10. In every state the driver can reach in which the stack does not exist, a resize
  to \<open>n\<close> with \<open>0 < n \<le> STACK_MAX_SIZE\<close> never reports \<open>NotInitialized\<close>: when the
  allocator delivers a block it succeeds, the stack exists afterwards (with that
  block of \<open>n\<close> cells) and \<^verbatim>\<open>top\<close> is 0; when the allocator fails it reports
  \<open>AllocationFailure\<close>.
\<close>

theorem C10_resize_without_stack:
  assumes "reachable s" and "stack_entries s = None" and "0 < n" and "n \<le> STACK_MAX_SIZE"
  shows "new_ioctl 1 n (Some g) s =
           Return (Inr ())
             \<lparr>stack_entries = Some (map g [0..<unat n]), stack_size = ucast n, top_idx = 0\<rparr> \<and>
         new_ioctl 1 n None s = Return (Inl AllocationFailure) s \<and>
         (\<forall>a r. new_ioctl 1 n a s \<noteq> Return (Inl NotInitialized) r)"
proof -
  from assms(1,2) have "s = init_state" by (rule reachable_NULL_init)
  with assms(3,4) show ?thesis
    by (auto simp: new_ioctl_def kmalloc_def init_state_def split: option.splits)
qed

theorem C10_resize_without_stack_witness:
  "reachable init_state \<and> stack_entries init_state = None \<and>
   (0 :: 64 word) < 5 \<and> 5 \<le> STACK_MAX_SIZE \<and>
   new_ioctl 1 5 (Some (\<lambda>_. 0)) init_state =
     Return (Inr ()) \<lparr>stack_entries = Some [0, 0, 0, 0, 0], stack_size = 5, top_idx = 0\<rparr>"
proof -
  have e: "stack_entries init_state = None" by (simp add: init_state_def)
  have h1: "(0 :: 64 word) < 5" by simp
  have h2: "(5 :: 64 word) \<le> STACK_MAX_SIZE" by (simp add: STACK_MAX_SIZE_def)
  from C10_resize_without_stack [OF reachable.init e h1 h2, of "\<lambda>_. 0"] reachable.init e h1 h2
  show ?thesis by (simp add: upt_0_5)
qed

end
